theory Spec2Isabelle
  imports Main "HOL-Library.Sublist"
begin

section \<open>Characters and character classes\<close>

text \<open>
  JavaScript strings are sequences of UTF-16 code units. The model uses \<open>string\<close>
  (\<open>char list\<close>), so it covers the strings all of whose code units are below 256. On
  these the non-Unicode \<open>i\<close> flag folds ASCII letters only, and the classes \<open>\s\<close>,
  \<open>\w\<close> and the bracket classes of the patterns below are the ones written out here.
\<close>

definition dquote :: char where
  "dquote = CHR 0x22"

definition squote :: char where
  "squote = CHR 0x27"

definition code :: "char \<Rightarrow> nat" where
  "code c = of_char c"

definition is_upper :: "char \<Rightarrow> bool" where
  "is_upper c = (65 \<le> code c \<and> code c \<le> 90)"

definition is_lower :: "char \<Rightarrow> bool" where
  "is_lower c = (97 \<le> code c \<and> code c \<le> 122)"

definition is_digit :: "char \<Rightarrow> bool" where
  "is_digit c = (48 \<le> code c \<and> code c \<le> 57)"

definition is_alnum :: "char \<Rightarrow> bool" where
  "is_alnum c = (is_upper c \<or> is_lower c \<or> is_digit c)"

text \<open>\<open>[A-Za-z0-9._-]\<close>\<close>

definition is_token_char :: "char \<Rightarrow> bool" where
  "is_token_char c = (is_alnum c \<or> c = CHR ''.'' \<or> c = CHR ''_'' \<or> c = CHR ''-'')"

text \<open>\<open>[A-Za-z0-9_-]\<close>\<close>

definition is_jwt_char :: "char \<Rightarrow> bool" where
  "is_jwt_char c = (is_alnum c \<or> c = CHR ''_'' \<or> c = CHR ''-'')"

text \<open>\<open>\w\<close>, the class that decides \<open>\b\<close>\<close>

definition is_word_char :: "char \<Rightarrow> bool" where
  "is_word_char c = (is_alnum c \<or> c = CHR ''_'')"

text \<open>\<open>\s\<close> below 256: tab, line feed, vertical tab, form feed, carriage return,
  space and no-break space\<close>

definition is_space :: "char \<Rightarrow> bool" where
  "is_space c = (code c \<in> {9, 10, 11, 12, 13, 32, 160})"

definition is_quote :: "char \<Rightarrow> bool" where
  "is_quote c = (c = dquote \<or> c = squote)"

text \<open>
  Upper case, as the \<open>i\<close> flag compares: a lower-case ASCII letter loses bit 5 (its
  code decreases by 32), every other character stays.
\<close>

fun to_upper :: "char \<Rightarrow> char" where
  "to_upper (Char b0 b1 b2 b3 b4 b5 b6 b7) =
     (if is_lower (Char b0 b1 b2 b3 b4 b5 b6 b7) then Char b0 b1 b2 b3 b4 False b6 b7
      else Char b0 b1 b2 b3 b4 b5 b6 b7)"

text \<open>The classes on the bits of the character, for evaluation.\<close>

lemma is_lower_code [code]:
  "is_lower (Char b0 b1 b2 b3 b4 b5 b6 b7) =
     (\<not> b7 \<and> b6 \<and> b5 \<and> (b0 \<or> b1 \<or> b2 \<or> b3 \<or> b4) \<and> \<not> (b4 \<and> b3 \<and> (b2 \<or> (b1 \<and> b0))))"
  by (cases b0; cases b1; cases b2; cases b3; cases b4; cases b5; cases b6; cases b7;
      simp add: is_lower_def code_def)

lemma is_upper_code [code]:
  "is_upper (Char b0 b1 b2 b3 b4 b5 b6 b7) =
     (\<not> b7 \<and> b6 \<and> \<not> b5 \<and> (b0 \<or> b1 \<or> b2 \<or> b3 \<or> b4) \<and> \<not> (b4 \<and> b3 \<and> (b2 \<or> (b1 \<and> b0))))"
  by (cases b0; cases b1; cases b2; cases b3; cases b4; cases b5; cases b6; cases b7;
      simp add: is_upper_def code_def)

lemma is_digit_code [code]:
  "is_digit (Char b0 b1 b2 b3 b4 b5 b6 b7) =
     (\<not> b7 \<and> \<not> b6 \<and> b5 \<and> b4 \<and> \<not> (b3 \<and> (b2 \<or> b1)))"
  by (cases b0; cases b1; cases b2; cases b3; cases b4; cases b5; cases b6; cases b7;
      simp add: is_digit_def code_def)

lemma is_space_code [code]:
  "is_space (Char b0 b1 b2 b3 b4 b5 b6 b7) =
     (\<not> b6 \<and> \<not> b4 \<and>
      ((\<not> b7 \<and> \<not> b5 \<and> b3 \<and> ((\<not> b2 \<and> (b0 \<or> b1)) \<or> (b2 \<and> \<not> b1))) \<or>
       (b5 \<and> \<not> b3 \<and> \<not> b2 \<and> \<not> b1 \<and> \<not> b0)))"
  by (cases b0; cases b1; cases b2; cases b3; cases b4; cases b5; cases b6; cases b7;
      simp add: is_space_def code_def)

section \<open>A backtracking matcher for the pattern language of the rules\<close>

text \<open>
  The regular expressions of \<open>SENSITIVE_PATTERNS\<close> use literals (with or without the
  \<open>i\<close> flag), single character classes, greedy repetitions \<open>{n,}\<close> of a character
  class, an optional character, alternation, sequencing and \<open>\b\<close>.
\<close>

datatype rx =
    Lit string
  | LitCI string
  | Cls "char \<Rightarrow> bool"
  | Rep nat "char \<Rightarrow> bool"
  | Opt "char \<Rightarrow> bool"
  | Alt "rx list"
  | Seq "rx list"
  | WordB

text \<open>
  The matcher works on the text that is left, \<open>t\<close>, and on the character before it,
  \<open>pc\<close> (\<open>None\<close> at the start of the input), which \<open>\b\<close> needs.
\<close>

definition last_char :: "char option \<Rightarrow> string \<Rightarrow> char option" where
  "last_char pc consumed = (if consumed = [] then pc else Some (last consumed))"

definition word_boundary :: "char option \<Rightarrow> string \<Rightarrow> bool" where
  "word_boundary pc t =
     ((case pc of None \<Rightarrow> False | Some c \<Rightarrow> is_word_char c) \<noteq>
      (case t of [] \<Rightarrow> False | c # t' \<Rightarrow> is_word_char c))"

text \<open>
  \<open>ends r pc t\<close> lists the ways in which \<open>r\<close> can match at the start of \<open>t\<close>, each
  as the text it consumes and the text it leaves, in the order in which a backtracking
  matcher tries them: a greedy repetition tries the longest run first, an alternation its
  branches from left to right.
\<close>

fun ends :: "rx \<Rightarrow> char option \<Rightarrow> string \<Rightarrow> (string \<times> string) list" where
  "ends (Lit l) pc t =
     (if take (length l) t = l then [(l, drop (length l) t)] else [])"
| "ends (LitCI l) pc t =
     (if map to_upper (take (length l) t) = map to_upper l
      then [(take (length l) t, drop (length l) t)] else [])"
| "ends (Cls p) pc t =
     (case t of [] \<Rightarrow> [] | c # t' \<Rightarrow> if p c then [([c], t')] else [])"
| "ends (Rep n p) pc t =
     map (\<lambda>m. (take m t, drop m t)) (rev [n ..< Suc (length (takeWhile p t))])"
| "ends (Opt p) pc t =
     (case t of [] \<Rightarrow> [([], t)] | c # t' \<Rightarrow> if p c then [([c], t'), ([], t)] else [([], t)])"
| "ends (Alt rs) pc t = concat (map (\<lambda>r. ends r pc t) rs)"
| "ends (Seq rs) pc t =
     foldl (\<lambda>acc r.
        concat (map (\<lambda>a. map (\<lambda>b. (fst a @ fst b, snd b))
                           (ends r (last_char pc (fst a)) (snd a))) acc))
       [([], t)] rs"
| "ends WordB pc t = (if word_boundary pc t then [([], t)] else [])"

text \<open>
  A pattern is the list of its top-level parts. \<open>paths ps pc t\<close> lists, in the matcher's
  order, the ways of matching the parts one after the other at the start of \<open>t\<close>, each
  as the list of the texts that the parts consume and the text that is left.
\<close>

fun paths :: "rx list \<Rightarrow> char option \<Rightarrow> string \<Rightarrow> (string list \<times> string) list" where
  "paths [] pc t = [([], t)]"
| "paths (r # rs) pc t =
     concat (map (\<lambda>a. map (\<lambda>b. (fst a # fst b, snd b))
                        (paths rs (last_char pc (fst a)) (snd a))) (ends r pc t))"

text \<open>
  The first match in \<open>t\<close>: the text before the match, the texts of the parts and the
  text after the match.
\<close>

fun search :: "rx list \<Rightarrow> char option \<Rightarrow> string \<Rightarrow> (string \<times> string list \<times> string) option" where
  "search ps pc [] =
     (case paths ps pc [] of [] \<Rightarrow> None | x # xs \<Rightarrow> Some ([], fst x, snd x))"
| "search ps pc (c # t) =
     (case paths ps pc (c # t) of
        x # xs \<Rightarrow> Some ([], fst x, snd x)
      | [] \<Rightarrow> (case search ps (Some c) t of
                 None \<Rightarrow> None
               | Some (skip, m) \<Rightarrow> Some (c # skip, m)))"

lemma seq_step_split:
  assumes "\<And>r pc t x. r \<in> set rs \<Longrightarrow> x \<in> set (E r pc t) \<Longrightarrow> t = fst x @ snd x"
    and "\<forall>a \<in> set acc. t = fst a @ snd a"
  shows "\<forall>x \<in> set (foldl (\<lambda>acc r.
        concat (map (\<lambda>a. map (\<lambda>b. (fst a @ fst b, snd b))
                           (E r (last_char pc (fst a)) (snd a))) acc)) acc rs). t = fst x @ snd x"
  using assms
proof (induction rs arbitrary: acc)
  case Nil
  then show ?case by simp
next
  case (Cons r rs)
  have "\<forall>a \<in> set (concat (map (\<lambda>a. map (\<lambda>b. (fst a @ fst b, snd b))
                           (E r (last_char pc (fst a)) (snd a))) acc)). t = fst a @ snd a"
  proof
    fix x assume "x \<in> set (concat (map (\<lambda>a. map (\<lambda>b. (fst a @ fst b, snd b))
                           (E r (last_char pc (fst a)) (snd a))) acc))"
    then obtain a b where a: "a \<in> set acc" and b: "b \<in> set (E r (last_char pc (fst a)) (snd a))"
      and x: "x = (fst a @ fst b, snd b)" by auto
    from Cons.prems(1) [OF _ b] have "snd a = fst b @ snd b" by simp
    with Cons.prems(2) a x show "t = fst x @ snd x" by simp
  qed
  then have "\<forall>x \<in> set (foldl (\<lambda>acc r.
        concat (map (\<lambda>a. map (\<lambda>b. (fst a @ fst b, snd b))
                           (E r (last_char pc (fst a)) (snd a))) acc))
        (concat (map (\<lambda>a. map (\<lambda>b. (fst a @ fst b, snd b))
                           (E r (last_char pc (fst a)) (snd a))) acc)) rs). t = fst x @ snd x"
  proof (intro Cons.IH)
    fix r' pc' t' x
    assume "r' \<in> set rs" and "x \<in> set (E r' pc' t')"
    then show "t' = fst x @ snd x"
      using Cons.prems(1) [of r' x pc' t'] by simp
  qed
  then show ?case by simp
qed

lemma ends_split: "x \<in> set (ends r pc t) \<Longrightarrow> t = fst x @ snd x"
proof (induction r arbitrary: pc t x)
  case (Lit l)
  then have "take (length l) t = l" and "x = (l, drop (length l) t)"
    by (auto split: if_splits)
  then show ?case using append_take_drop_id [of "length l" t] by simp
next
  case (Alt rs)
  then show ?case by auto
next
  case (Seq rs)
  have "\<forall>x \<in> set (ends (Seq rs) pc t). t = fst x @ snd x"
    unfolding ends.simps
    by (rule seq_step_split) (use Seq.IH in auto)
  with Seq.prems show ?case by blast
qed (auto split: if_splits list.splits)

lemma paths_split: "x \<in> set (paths ps pc t) \<Longrightarrow> t = concat (fst x) @ snd x"
proof (induction ps arbitrary: pc t x)
  case Nil
  then show ?case by simp
next
  case (Cons r ps)
  from Cons.prems obtain a b where a: "a \<in> set (ends r pc t)"
    and b: "b \<in> set (paths ps (last_char pc (fst a)) (snd a))" and x: "x = (fst a # fst b, snd b)"
    by auto
  from ends_split [OF a] Cons.IH [OF b] x show ?case by simp
qed

lemma search_split:
  "search ps pc t = Some (skip, pieces, rest) \<Longrightarrow>
     \<exists>t'. t = skip @ t' \<and> t' = concat pieces @ rest \<and>
          (pieces, rest) \<in> set (paths ps (last_char pc skip) t')"
proof (induction t arbitrary: pc skip)
  case Nil
  then obtain x xs where "paths ps pc [] = x # xs" and skip: "skip = []" and "x = (pieces, rest)"
    by (auto split: list.splits)
  then have m: "(pieces, rest) \<in> set (paths ps pc [])" by simp
  from paths_split [OF m] have "[] = concat pieces @ rest" by simp
  with m skip show ?case by (simp add: last_char_def)
next
  case (Cons c t)
  show ?case
  proof (cases "paths ps pc (c # t)")
    case Nil
    with Cons.prems obtain skip' where s: "search ps (Some c) t = Some (skip', pieces, rest)"
      and skip: "skip = c # skip'"
      by (auto split: option.splits)
    from Cons.IH [OF s] obtain t' where "t = skip' @ t'" and "t' = concat pieces @ rest"
      and "(pieces, rest) \<in> set (paths ps (last_char (Some c) skip') t')" by blast
    moreover have "last_char pc (c # skip') = last_char (Some c) skip'"
      by (simp add: last_char_def)
    ultimately show ?thesis using skip by simp
  next
    case (Cons x xs)
    with Cons.prems have skip: "skip = []" and "x = (pieces, rest)" by auto
    with Cons have m: "(pieces, rest) \<in> set (paths ps pc (c # t))" by simp
    from paths_split [OF m] have "c # t = concat pieces @ rest" by simp
    with m skip show ?thesis by (simp add: last_char_def)
  qed
qed

section \<open>\<open>String.prototype.replace\<close> and \<open>RegExp.prototype.test\<close>\<close>

text \<open>
  A replacement is a string, in which \<open>$n\<close> stands for the text of a capturing group,
  or a function of the matched text. The only capturing groups of the rules are
  top-level parts of their pattern, so a group is named by the index of its part.
\<close>

datatype tpl = Txt string | Part nat

datatype replacement = ReplString "tpl list" | ReplFun "string \<Rightarrow> string"

fun expand :: "replacement \<Rightarrow> string list \<Rightarrow> string" where
  "expand (ReplFun f) pieces = f (concat pieces)"
| "expand (ReplString items) pieces =
     concat (map (\<lambda>it. case it of Txt text \<Rightarrow> text | Part k \<Rightarrow> pieces ! k) items)"

text \<open>
  Replacing with a global pattern: the text before a match is copied, the match is
  replaced, and the search goes on in the text after the match; after an empty match it
  goes on one character further, and that character is copied.
\<close>

function replace_loop :: "rx list \<Rightarrow> replacement \<Rightarrow> char option \<Rightarrow> string \<Rightarrow> string" where
  "replace_loop ps r pc t =
     (case search ps pc t of
        None \<Rightarrow> t
      | Some (skip, pieces, rest) \<Rightarrow>
          skip @ expand r pieces @
          (if concat pieces = []
           then (case rest of
                   [] \<Rightarrow> []
                 | c # rest' \<Rightarrow> c # replace_loop ps r (Some c) rest')
           else replace_loop ps r (last_char pc (skip @ concat pieces)) rest))"
  by pat_completeness auto
termination
proof (relation "measure (\<lambda>(ps, r, pc, t). length t)")
  show "wf (measure (\<lambda>(ps, r, pc, t). length t))" by simp
next
  fix ps :: "rx list" and r :: replacement and pc :: "char option" and t :: string
    and x2 :: "string \<times> string list \<times> string" and skip :: string
    and y :: "string list \<times> string" and pieces :: "string list" and rest :: string
    and c :: char and rest' :: string
  assume "search ps pc t = Some x2" "(skip, y) = x2" "(pieces, rest) = y" "rest = c # rest'"
  then have "search ps pc t = Some (skip, pieces, c # rest')" by simp
  from search_split [OF this]
  show "((ps, r, Some c, rest'), ps, r, pc, t) \<in> measure (\<lambda>(ps, r, pc, t). length t)"
    by auto
next
  fix ps :: "rx list" and r :: replacement and pc :: "char option" and t :: string
    and x2 :: "string \<times> string list \<times> string" and skip :: string
    and y :: "string list \<times> string" and pieces :: "string list" and rest :: string
  assume "search ps pc t = Some x2" "(skip, y) = x2" "(pieces, rest) = y" "concat pieces \<noteq> []"
  then have "search ps pc t = Some (skip, pieces, rest)" by simp
  from search_split [OF this] \<open>concat pieces \<noteq> []\<close>
  show "((ps, r, last_char pc (skip @ concat pieces), rest), ps, r, pc, t)
          \<in> measure (\<lambda>(ps, r, pc, t). length t)"
    by (cases "concat pieces") auto
qed

declare replace_loop.simps [simp del]

definition replace_all :: "rx list \<Rightarrow> replacement \<Rightarrow> string \<Rightarrow> string" where
  "replace_all ps r s = replace_loop ps r None s"

text \<open>Replacing with a pattern that is not global: the first match only.\<close>

definition replace_first :: "rx list \<Rightarrow> replacement \<Rightarrow> string \<Rightarrow> string" where
  "replace_first ps r s =
     (case search ps None s of
        None \<Rightarrow> s
      | Some (skip, pieces, rest) \<Rightarrow> skip @ expand r pieces @ rest)"

text \<open>
  \<open>test\<close> on a global pattern reads and writes the pattern's \<open>lastIndex\<close>: the search
  starts there, a hit leaves \<open>lastIndex\<close> at the end of the match, a miss resets it
  to 0.
\<close>

definition regexp_test :: "rx list \<Rightarrow> string \<Rightarrow> nat \<Rightarrow> bool \<times> nat" where
  "regexp_test ps s lastIndex =
     (if length s < lastIndex then (False, 0)
      else case search ps (last_char None (take lastIndex s)) (drop lastIndex s) of
             None \<Rightarrow> (False, 0)
           | Some (skip, pieces, rest) \<Rightarrow> (True, length s - length rest))"

section \<open>The sanitizer: \<open>SENSITIVE_PATTERNS\<close> and \<open>sanitizeString\<close>\<close>

record rule =
  pattern :: "rx list"
  replacement :: replacement
  description :: string

definition bearer_pattern :: "rx list" where
  "bearer_pattern = [LitCI ''Bearer'', Rep 1 is_space, Rep 1 is_token_char]"

definition sk_pattern :: "rx list" where
  "sk_pattern = [WordB, Lit ''sk-'', Rep 20 is_alnum]"

definition api_key_pattern :: "rx list" where
  "api_key_pattern =
     [WordB, Alt [LitCI ''api_key'', LitCI ''apikey'', LitCI ''api-key''],
      Rep 0 is_space, Cls (\<lambda>c. c = CHR ''='' \<or> c = CHR '':''), Rep 0 is_space,
      Opt is_quote, Rep 16 is_token_char, Opt is_quote]"

definition api_key_replacement :: "string \<Rightarrow> string" where
  "api_key_replacement match =
     replace_all [Rep 16 is_token_char] (ReplString [Txt ''[REDACTED]'']) match"

definition password_pattern :: "rx list" where
  "password_pattern =
     [Alt [LitCI ''password'', LitCI ''secret'', LitCI ''key''],
      Rep 0 is_space, Cls (\<lambda>c. c = CHR ''='' \<or> c = CHR '':''), Rep 0 is_space,
      Cls is_quote, Rep 2 (\<lambda>c. \<not> is_quote c), Cls is_quote]"

definition password_replacement :: "string \<Rightarrow> string" where
  "password_replacement match =
     replace_first [Cls is_quote, Rep 2 (\<lambda>c. \<not> is_quote c), Cls is_quote]
       (ReplString [Txt (dquote # ''[REDACTED]'' @ [dquote])]) match"

definition jwt_pattern :: "rx list" where
  "jwt_pattern =
     [WordB, Lit ''eyJ'', Rep 1 is_jwt_char, Lit ''.'', Rep 1 is_jwt_char, Lit ''.'',
      Rep 0 is_jwt_char]"

definition db_pattern :: "rx list" where
  "db_pattern =
     [Seq [LitCI ''postgresql://'', Rep 1 (\<lambda>c. c \<noteq> CHR '':''), Lit '':''],
      Rep 1 (\<lambda>c. c \<noteq> CHR ''@''),
      Seq [Lit ''@'', Rep 1 (\<lambda>c. c \<noteq> CHR ''/'')]]"

definition SENSITIVE_PATTERNS :: "rule list" where
  "SENSITIVE_PATTERNS =
     [\<lparr>pattern = bearer_pattern,
       replacement = ReplString [Txt ''Bearer [REDACTED]''],
       description = ''Bearer tokens''\<rparr>,
      \<lparr>pattern = sk_pattern,
       replacement = ReplString [Txt ''sk-[REDACTED]''],
       description = ''OpenAI/Stripe-style API keys''\<rparr>,
      \<lparr>pattern = api_key_pattern,
       replacement = ReplFun api_key_replacement,
       description = ''Generic API keys''\<rparr>,
      \<lparr>pattern = password_pattern,
       replacement = ReplFun password_replacement,
       description = ''Password/secret fields''\<rparr>,
      \<lparr>pattern = jwt_pattern,
       replacement = ReplString [Txt ''eyJ[REDACTED_JWT]''],
       description = ''JWT tokens''\<rparr>,
      \<lparr>pattern = db_pattern,
       replacement = ReplString [Part 0, Txt ''[REDACTED]'', Part 2],
       description = ''Database connection strings''\<rparr>]"

text \<open>
  \<open>sanitizeString\<close> applies the rules in order, each to the result of the one before.
  \<open>replace\<close> with a global pattern starts at \<open>lastIndex = 0\<close> and leaves it at 0, so
  the result does not depend on the patterns' \<open>lastIndex\<close>.
\<close>

definition sanitizeString :: "string \<Rightarrow> string" where
  "sanitizeString input =
     foldl (\<lambda>result r. replace_all (pattern r) (replacement r) result) input SENSITIVE_PATTERNS"

section \<open>JavaScript values\<close>

text \<open>
  Anything can be thrown. Of a thrown value the code reads only
  \<open>error instanceof Error ? error.message : String(error)\<close>, so a thrown \<open>Error\<close> is
  given by its name and its message, and any other thrown value by what \<open>String\<close> does
  on it: it returns a text, or it throws in its turn, as it does on
  \<open>Object.create(null)\<close>, which has no conversion to a string.
\<close>

datatype exn =
    ThrownError string string
  | ThrownOther "exn + string"

text \<open>
  Objects are written inline when nothing else refers to them, and as \<open>VRef a\<close>, a
  reference into a store, when they are shared or lie on a cycle. An object is the list
  of its own enumerable string-keyed properties, in the order of \<open>Object.entries\<close>;
  the rule that integer-like keys are enumerated first is not modelled, properties stay
  in the order of their creation. Numbers are only ever copied, so the payload of
  \<open>VNum\<close> stands for the double.

  A \<open>Date\<close> is given by what its \<open>toISOString\<close> does: it returns a text or throws. An
  invalid date throws a \<open>RangeError\<close>; a date whose \<open>toISOString\<close> has been replaced
  may throw anything.

  An \<open>Error\<close> is given by what \<open>name\<close>, \<open>message\<close> and \<open>stack\<close> read on it, by its
  other own properties in the order of \<open>Object.getOwnPropertyNames\<close>, and by the names
  of those among them that are not enumerable.

  \<open>VInstance\<close> is any other object that is not plain: a \<open>Map\<close>, a \<open>Set\<close>, an instance
  of a class. It is given by the name of its class, by its internal contents, which no
  property gives access to (the entries of a \<open>Map\<close>, each a two-element array, the
  elements of a \<open>Set\<close>), and by its own enumerable string-keyed properties.

  Accessor properties and proxies are not modelled: of the code that the walk can run in
  a value, only \<open>toISOString\<close> is.
\<close>

type_synonym addr = nat

datatype jsval =
    VUndefined
  | VNull
  | VBool bool
  | VNum int
  | VStr string
  | VFunction
  | VSymbol
  | VBigInt int
  | VError string string "string option" "(string \<times> jsval) list" "string list"
  | VDate "exn + string"
  | VArray "jsval list"
  | VObject "(string \<times> jsval) list"
  | VInstance string "jsval list" "(string \<times> jsval) list"
  | VRef addr

type_synonym props = "(string \<times> jsval) list"

type_synonym heap = "addr \<Rightarrow> jsval option"

text \<open>\<open>new Date(NaN)\<close>, and what its \<open>toISOString\<close> throws.\<close>

definition invalid_time :: exn where
  "invalid_time = ThrownError ''RangeError'' ''Invalid time value''"

definition invalid_date :: jsval where
  "invalid_date = VDate (Inl invalid_time)"

definition deref :: "heap \<Rightarrow> jsval \<Rightarrow> jsval" where
  "deref h v =
     (case v of
        VRef a \<Rightarrow> (case h a of Some obj \<Rightarrow> obj | None \<Rightarrow> VUndefined)
      | _ \<Rightarrow> v)"

definition typeof :: "heap \<Rightarrow> jsval \<Rightarrow> string" where
  "typeof h v =
     (case deref h v of
        VUndefined \<Rightarrow> ''undefined''
      | VBool b \<Rightarrow> ''boolean''
      | VNum n \<Rightarrow> ''number''
      | VStr s \<Rightarrow> ''string''
      | VFunction \<Rightarrow> ''function''
      | VSymbol \<Rightarrow> ''symbol''
      | VBigInt n \<Rightarrow> ''bigint''
      | _ \<Rightarrow> ''object'')"

text \<open>
  A property written by an object literal or copied by a spread: an existing key keeps
  its place, a new key goes to the end.
\<close>

definition define_prop :: "props \<Rightarrow> string \<Rightarrow> jsval \<Rightarrow> props" where
  "define_prop obj key v =
     (if key \<in> fst ` set obj
      then map (\<lambda>kv. if fst kv = key then (key, v) else kv) obj
      else obj @ [(key, v)])"

text \<open>
  \<open>obj[key] = v\<close> on an object whose prototype is \<open>Object.prototype\<close>. The assignment
  to \<open>__proto__\<close> runs the setter that the prototype has for this key: no own property
  is made. What the setter does to the prototype chain has no effect on the own
  properties, which are all that the model records.
\<close>

definition proto_key :: string where
  "proto_key = ''__proto__''"

definition set_prop :: "props \<Rightarrow> string \<Rightarrow> jsval \<Rightarrow> props" where
  "set_prop obj key v = (if key = proto_key then obj else define_prop obj key v)"

fun decimal :: "nat \<Rightarrow> string" where
  "decimal n =
     (if n < 10 then [char_of (48 + n)] else decimal (n div 10) @ [char_of (48 + n mod 10)])"

text \<open>
  The properties that \<open>...v\<close> copies into an object literal: the own enumerable
  properties of an object, the indexed elements of an array, the indexed characters of a
  string, nothing for the other primitives. The \<open>name\<close>, \<open>message\<close> and \<open>stack\<close> of
  an \<open>Error\<close> are taken not to be enumerable, as the constructor and the prototype make
  them.
\<close>

definition spread :: "heap \<Rightarrow> jsval \<Rightarrow> props" where
  "spread h v =
     (case deref h v of
        VObject entries \<Rightarrow> entries
      | VError name message stack own hidden \<Rightarrow> filter (\<lambda>kv. fst kv \<notin> set hidden) own
      | VInstance cls contents entries \<Rightarrow> entries
      | VArray items \<Rightarrow> zip (map decimal [0 ..< length items]) items
      | VStr s \<Rightarrow> zip (map decimal [0 ..< length s]) (map (\<lambda>c. VStr [c]) s)
      | _ \<Rightarrow> [])"

text \<open>\<open>{...a, ...b}\<close>: the properties of \<open>b\<close> are written over those of \<open>a\<close>.\<close>

definition assign_all :: "props \<Rightarrow> props \<Rightarrow> props" where
  "assign_all a b = foldl (\<lambda>obj kv. define_prop obj (fst kv) (snd kv)) a b"

section \<open>The deep sanitizer\<close>

text \<open>\<open>try { body } catch (error) { handler }\<close>\<close>

definition try_catch :: "exn + 'a \<Rightarrow> (exn \<Rightarrow> exn + 'a) \<Rightarrow> exn + 'a" where
  "try_catch body handler = (case body of Inl e \<Rightarrow> handler e | Inr v \<Rightarrow> Inr v)"

text \<open>\<open>xs.map(f)\<close> where \<open>f\<close> may throw: the first exception ends the loop.\<close>

fun sequence :: "(exn + 'a) list \<Rightarrow> exn + 'a list" where
  "sequence [] = Inr []"
| "sequence (x # xs) =
     (case x of
        Inl e \<Rightarrow> Inl e
      | Inr v \<Rightarrow> (case sequence xs of Inl e \<Rightarrow> Inl e | Inr vs \<Rightarrow> Inr (v # vs)))"

definition MAX_DEPTH_REACHED :: string where
  "MAX_DEPTH_REACHED = ''[MAX_DEPTH_REACHED]''"

definition CIRCULAR_REFERENCE :: string where
  "CIRCULAR_REFERENCE = ''[CIRCULAR_REFERENCE]''"

definition is_function :: "heap \<Rightarrow> jsval \<Rightarrow> bool" where
  "is_function h v = (typeof h v = ''function'')"

text \<open>
  The object that the \<open>Error\<close> branch builds with \<open>reduce\<close> over the own property
  names: every own property but \<open>name\<close>, \<open>message\<close> and \<open>stack\<close>, assigned into a
  fresh object.
\<close>

definition other_props :: "props \<Rightarrow> props" where
  "other_props own =
     foldl (\<lambda>acc kv.
        if fst kv \<noteq> ''name'' \<and> fst kv \<noteq> ''message'' \<and> fst kv \<noteq> ''stack''
        then set_prop acc (fst kv) (snd kv)
        else acc) [] own"

text \<open>
  \<open>sanitizeObject\<close>, with the value of \<open>process.env.NODE_ENV\<close> and the store as
  parameters. The branches are tested in the order of the source. The loop over
  \<open>Object.entries\<close> serves every object that is neither an \<open>Error\<close>, a \<open>Date\<close> nor
  an array, so every \<open>VInstance\<close> as well as the plain objects.
\<close>

function sanitizeObject :: "string option \<Rightarrow> heap \<Rightarrow> jsval \<Rightarrow> int \<Rightarrow> exn + jsval" where
  "sanitizeObject node_env h obj maxDepth =
     (if maxDepth \<le> 0 then Inr (VStr MAX_DEPTH_REACHED)
      else
        let entries_loop = (\<lambda>entries.
          Inr (VObject (foldl (\<lambda>sanitized kv.
            if is_function h (snd kv) then sanitized
            else set_prop sanitized (fst kv)
                   (case sanitizeObject node_env h (snd kv) (maxDepth - 1) of
                      Inl e \<Rightarrow> VStr CIRCULAR_REFERENCE
                    | Inr v \<Rightarrow> v)) [] entries)))
        in
        case deref h obj of
          VUndefined \<Rightarrow> Inr obj
        | VNull \<Rightarrow> Inr obj
        | VStr s \<Rightarrow> Inr (VStr (sanitizeString s))
        | VNum n \<Rightarrow> Inr (VNum n)
        | VBool b \<Rightarrow> Inr (VBool b)
        | VError name message stack own hidden \<Rightarrow>
            (case sanitizeObject node_env h (VObject (other_props own)) (maxDepth - 1) of
               Inl e \<Rightarrow> Inl e
             | Inr rest \<Rightarrow>
                 Inr (VObject (assign_all
                   [(''name'', VStr name),
                    (''message'', VStr (sanitizeString message)),
                    (''stack'',
                       if node_env = Some ''development''
                       then VStr (sanitizeString (case stack of None \<Rightarrow> [] | Some t \<Rightarrow> t))
                       else VUndefined)]
                   (spread h rest))))
        | VDate toISOString \<Rightarrow>
            (case toISOString of
               Inl e \<Rightarrow> Inl e
             | Inr t \<Rightarrow> Inr (VStr t))
        | VArray items \<Rightarrow>
            (case sequence (map (\<lambda>item. sanitizeObject node_env h item (maxDepth - 1)) items) of
               Inl e \<Rightarrow> Inl e
             | Inr items' \<Rightarrow> Inr (VArray items'))
        | VObject entries \<Rightarrow> entries_loop entries
        | VInstance cls contents entries \<Rightarrow> entries_loop entries
        | _ \<Rightarrow> Inr obj)"
  by pat_completeness auto
termination
  by (relation "measure (\<lambda>(node_env, h, obj, maxDepth). nat maxDepth)") auto

declare sanitizeObject.simps [simp del]

text \<open>
  \<open>error instanceof Error ? error.message : String(error)\<close>. The expression stands in
  the \<open>catch\<close> block, outside any \<open>try\<close>: what \<open>String\<close> throws leaves the function.
\<close>

fun error_text :: "exn \<Rightarrow> exn + string" where
  "error_text (ThrownError name message) = Inr message"
| "error_text (ThrownOther conversion) = conversion"

definition sanitizeLogData :: "string option \<Rightarrow> heap \<Rightarrow> jsval \<Rightarrow> exn + jsval" where
  "sanitizeLogData node_env h data =
     try_catch (sanitizeObject node_env h data 10)
       (\<lambda>error.
          case error_text error of
            Inl e \<Rightarrow> Inl e
          | Inr text \<Rightarrow>
              Inr (VObject
                [(''_sanitization_error'', VBool True),
                 (''_original_type'', VStr (typeof h data)),
                 (''_error'', VStr text)]))"

definition sanitizeLogArgs :: "string option \<Rightarrow> heap \<Rightarrow> jsval list \<Rightarrow> exn + jsval list" where
  "sanitizeLogArgs node_env h args = sequence (map (\<lambda>arg. sanitizeLogData node_env h arg) args)"

section \<open>The read-only queries\<close>

text \<open>
  The patterns are global, so \<open>pattern.test\<close> goes through the \<open>lastIndex\<close> of the
  pattern object, which lives as long as the module. The state of the queries is the
  list of the \<open>lastIndex\<close> values of the rules, in rule order; it is all zeros when the
  module is loaded. \<open>some\<close> stops at the first rule that hits, \<open>filter\<close> tests every
  rule.
\<close>

type_synonym pattern_state = "nat list"

definition initial_pattern_state :: pattern_state where
  "initial_pattern_state = map (\<lambda>r. 0) SENSITIVE_PATTERNS"

fun some_test :: "rule list \<Rightarrow> string \<Rightarrow> pattern_state \<Rightarrow> bool \<times> pattern_state" where
  "some_test (r # rs) input (li # lis) =
     (case regexp_test (pattern r) input li of
        (True, li') \<Rightarrow> (True, li' # lis)
      | (False, li') \<Rightarrow> (case some_test rs input lis of (b, lis') \<Rightarrow> (b, li' # lis')))"
| "some_test rs input lis = (False, lis)"

fun filter_test :: "rule list \<Rightarrow> string \<Rightarrow> pattern_state \<Rightarrow> rule list \<times> pattern_state" where
  "filter_test (r # rs) input (li # lis) =
     (case regexp_test (pattern r) input li of
        (hit, li') \<Rightarrow>
          (case filter_test rs input lis of
             (kept, lis') \<Rightarrow> ((if hit then r # kept else kept), li' # lis')))"
| "filter_test rs input lis = ([], lis)"

definition containsSensitiveData :: "string \<Rightarrow> pattern_state \<Rightarrow> bool \<times> pattern_state" where
  "containsSensitiveData input st = some_test SENSITIVE_PATTERNS input st"

definition detectSensitivePatterns :: "string \<Rightarrow> pattern_state \<Rightarrow> string list \<times> pattern_state" where
  "detectSensitivePatterns input st =
     (case filter_test SENSITIVE_PATTERNS input st of
        (kept, st') \<Rightarrow> (map description kept, st'))"

section \<open>The structured logger\<close>

text \<open>
  What the loggers need from outside the repository is a parameter: the value of
  \<open>NODE_ENV\<close>, whether \<open>window\<close> is undefined, the clock, \<open>chalk\<close> and
  \<open>JSON.stringify\<close> (\<open>None\<close> when it throws).
\<close>

datatype color = Cyan | Gray | Blue | Green | Yellow | Red

record runtime =
  NODE_ENV :: "string option"
  isServerSide :: bool
  now :: string
  chalk :: "color \<Rightarrow> string \<Rightarrow> string"
  json_stringify :: "heap \<Rightarrow> jsval \<Rightarrow> nat \<Rightarrow> string option"

datatype stream = Stdout | Stderr

text \<open>The levels of pino, and \<open>silent\<close>, which is above them all.\<close>

datatype pino_level = Trace | Debug | Info | Warn | Error | Fatal | Silent

fun level_value :: "pino_level \<Rightarrow> nat option" where
  "level_value Trace = Some 10"
| "level_value Debug = Some 20"
| "level_value Info = Some 30"
| "level_value Warn = Some 40"
| "level_value Error = Some 50"
| "level_value Fatal = Some 60"
| "level_value Silent = None"

text \<open>
  What reaches a sink: the arguments of one \<open>console.log\<close> or \<open>console.error\<close>
  call, or one record of the pino logger with the bindings of that logger.
\<close>

datatype emitted =
    ConsoleLine stream "jsval list"
  | PinoRecord pino_level props props

record pino_logger =
  threshold :: pino_level
  bindings :: props

text \<open>
  pino's level gate, from its documentation: a logger writes the records of the levels
  at or above its own level, and none when its level is \<open>silent\<close>.
\<close>

definition pino_write :: "pino_logger \<Rightarrow> pino_level \<Rightarrow> props \<Rightarrow> emitted list" where
  "pino_write lg lvl logData =
     (case (level_value (threshold lg), level_value lvl) of
        (Some t, Some l) \<Rightarrow> if t \<le> l then [PinoRecord lvl (bindings lg) logData] else []
      | _ \<Rightarrow> [])"

text \<open>\<open>getLoggerConfig\<close>: only the level bears on what is written.\<close>

definition getLoggerConfig_level :: "runtime \<Rightarrow> pino_level" where
  "getLoggerConfig_level rt =
     (let isDevelopment = (NODE_ENV rt = Some ''development'');
          isTest = (NODE_ENV rt = Some ''test'')
      in if isTest then Silent else if isDevelopment then Debug else Info)"

text \<open>
  The constructor. The model is of a logger that has been constructed: the start of the
  \<open>pino-pretty\<close> transport, which \<open>getLoggerConfig\<close> asks for in development and which
  pino attempts inside \<open>pino(...)\<close>, is not part of it, nor are the handlers that the
  constructor registers on the process.
\<close>

record StructuredLogger =
  pino :: pino_logger
  sl_module :: string
  defaultContext :: props

definition new_StructuredLogger :: "runtime \<Rightarrow> string \<Rightarrow> props \<Rightarrow> StructuredLogger" where
  "new_StructuredLogger rt module ctx =
     \<lparr>pino = \<lparr>threshold = getLoggerConfig_level rt, bindings = []\<rparr>,
      sl_module = module,
      defaultContext = assign_all [(''module'', VStr module)] ctx\<rparr>"

definition createStructuredLogger :: "runtime \<Rightarrow> string \<Rightarrow> props option \<Rightarrow> StructuredLogger" where
  "createStructuredLogger rt module ctx =
     new_StructuredLogger rt module (case ctx of None \<Rightarrow> [] | Some c \<Rightarrow> c)"

text \<open>\<open>v[key] = x\<close>: on a primitive the assignment has no effect.\<close>

definition assign_prop :: "jsval \<Rightarrow> string \<Rightarrow> jsval \<Rightarrow> jsval" where
  "assign_prop v key x = (case v of VObject entries \<Rightarrow> VObject (set_prop entries key x) | _ \<Rightarrow> v)"

text \<open>
  \<open>child\<close>: a new logger whose default context is the parent's with the given
  context written over it, and whose pino logger carries the sanitized context as
  bindings. The parent is not changed.
\<close>

definition child :: "runtime \<Rightarrow> heap \<Rightarrow> StructuredLogger \<Rightarrow> props \<Rightarrow> exn + StructuredLogger" where
  "child rt h this ctx =
     (let childLogger = new_StructuredLogger rt (sl_module this)
                          (assign_all (defaultContext this) ctx)
      in case sanitizeLogData (NODE_ENV rt) h (VObject ctx) of
           Inl e \<Rightarrow> Inl e
         | Inr b \<Rightarrow>
             Inr (childLogger\<lparr>pino :=
               (pino this)\<lparr>bindings := assign_all (bindings (pino this)) (spread h b)\<rparr>\<rparr>))"

text \<open>
  \<open>formatLogData\<close>. With a call context, \<open>sanitizedContext\<close> is the fresh object that
  \<open>sanitizeLogData\<close> returns; without one it is \<open>this.defaultContext\<close> itself, so
  the assignment of \<open>additionalData\<close> then writes into the logger's default context.
  The function returns the record and the logger after the call. When it throws, it
  does so before that assignment, and the logger is as before.
\<close>

definition formatLogData ::
  "runtime \<Rightarrow> heap \<Rightarrow> StructuredLogger \<Rightarrow> string \<Rightarrow> props option \<Rightarrow> jsval list
     \<Rightarrow> exn + (props \<times> StructuredLogger)" where
  "formatLogData rt h this message ctx args =
     (case (case ctx of
              Some c \<Rightarrow> sanitizeLogData (NODE_ENV rt) h (VObject (assign_all (defaultContext this) c))
            | None \<Rightarrow> Inr (VObject (defaultContext this))) of
        Inl e \<Rightarrow> Inl e
      | Inr sanitizedContext \<Rightarrow>
          (case (if 0 < length args then sanitizeLogArgs (NODE_ENV rt) h args else Inr []) of
             Inl e \<Rightarrow> Inl e
           | Inr sanitizedArgs \<Rightarrow>
               let sanitizedContext' =
                     (if 0 < length sanitizedArgs
                      then assign_prop sanitizedContext ''additionalData'' (VArray sanitizedArgs)
                      else sanitizedContext);
                   this' = (case ctx of
                              Some c \<Rightarrow> this
                            | None \<Rightarrow> this\<lparr>defaultContext := spread h sanitizedContext'\<rparr>)
               in Inr (assign_all [(''msg'', VStr message)] (spread h sanitizedContext'), this')))"

text \<open>
  The logging methods: format, then hand the record to pino at the method's level. A
  call returns the logger after the call and either what it has written or, when
  \<open>formatLogData\<close> throws, the thrown value; nothing has been written then.
\<close>

definition log_at ::
  "pino_level \<Rightarrow> runtime \<Rightarrow> heap \<Rightarrow> StructuredLogger \<Rightarrow> string \<Rightarrow> props option \<Rightarrow> jsval list
     \<Rightarrow> StructuredLogger \<times> (exn + emitted list)" where
  "log_at lvl rt h this message ctx args =
     (case formatLogData rt h this message ctx args of
        Inl e \<Rightarrow> (this, Inl e)
      | Inr (logData, this') \<Rightarrow> (this', Inr (pino_write (pino this') lvl logData)))"

definition sl_trace where "sl_trace = log_at Trace"
definition sl_debug where "sl_debug = log_at Debug"
definition sl_info where "sl_info = log_at Info"
definition sl_warn where "sl_warn = log_at Warn"
definition sl_error where "sl_error = log_at Error"
definition sl_fatal where "sl_fatal = log_at Fatal"

text \<open>
  \<open>logWithLevel\<close> takes a number; the six values of the enum select their method, any
  other number selects \<open>info\<close>.
\<close>

definition logWithLevel ::
  "int \<Rightarrow> runtime \<Rightarrow> heap \<Rightarrow> StructuredLogger \<Rightarrow> string \<Rightarrow> props option \<Rightarrow> jsval list
     \<Rightarrow> StructuredLogger \<times> (exn + emitted list)" where
  "logWithLevel level =
     (if level = 10 then log_at Trace
      else if level = 20 then log_at Debug
      else if level = 30 then log_at Info
      else if level = 40 then log_at Warn
      else if level = 50 then log_at Error
      else if level = 60 then log_at Fatal
      else log_at Info)"

section \<open>The console logger and the logger facade\<close>

datatype LogLevel = DEBUG | INFO | WARN | ERROR

fun LogLevel_string :: "LogLevel \<Rightarrow> string" where
  "LogLevel_string DEBUG = ''DEBUG''"
| "LogLevel_string INFO = ''INFO''"
| "LogLevel_string WARN = ''WARN''"
| "LogLevel_string ERROR = ''ERROR''"

text \<open>
  What the code reads of \<open>config\<close>. A field that is \<open>undefined\<close> is read as false where
  the code tests it, and is \<open>None\<close> for \<open>minLevel\<close>.
\<close>

record log_config =
  enabled :: bool
  minLevel :: "LogLevel option"
  colorize :: bool
  useStructured :: bool

definition config_development :: log_config where
  "config_development =
     \<lparr>enabled = True, minLevel = Some DEBUG, colorize = True, useStructured = False\<rparr>"

definition config_production :: log_config where
  "config_production =
     \<lparr>enabled = True, minLevel = Some INFO, colorize = False, useStructured = True\<rparr>"

definition config_test :: log_config where
  "config_test =
     \<lparr>enabled = False, minLevel = Some ERROR, colorize = False, useStructured = False\<rparr>"

text \<open>
  \<open>LOG_CONFIG\<close> is an object literal, so \<open>LOG_CONFIG[key]\<close> finds, besides the three
  own keys, the properties that every object inherits from \<open>Object.prototype\<close>. Their
  values are functions, or the prototype itself for \<open>__proto__\<close>: all truthy, all
  without any of the four fields.
\<close>

definition Object_prototype_keys :: "string list" where
  "Object_prototype_keys =
     [''constructor'', ''__defineGetter__'', ''__defineSetter__'', ''hasOwnProperty'',
      ''__lookupGetter__'', ''__lookupSetter__'', ''isPrototypeOf'', ''propertyIsEnumerable'',
      ''toString'', ''valueOf'', ''__proto__'', ''toLocaleString'']"

definition config_inherited :: log_config where
  "config_inherited =
     \<lparr>enabled = False, minLevel = None, colorize = False, useStructured = False\<rparr>"

definition LOG_CONFIG :: "string \<Rightarrow> log_config option" where
  "LOG_CONFIG key =
     (if key = ''development'' then Some config_development
      else if key = ''production'' then Some config_production
      else if key = ''test'' then Some config_test
      else if key \<in> set Object_prototype_keys then Some config_inherited
      else None)"

text \<open>\<open>env.NODE_ENV || 'development'\<close>: a missing or empty value gives the default.\<close>

definition ENV :: "runtime \<Rightarrow> string" where
  "ENV rt = (case NODE_ENV rt of None \<Rightarrow> ''development'' | Some e \<Rightarrow> if e = [] then ''development'' else e)"

definition config :: "runtime \<Rightarrow> log_config" where
  "config rt = (case LOG_CONFIG (ENV rt) of Some c \<Rightarrow> c | None \<Rightarrow> config_development)"

definition formatObject :: "runtime \<Rightarrow> heap \<Rightarrow> jsval \<Rightarrow> string" where
  "formatObject rt h obj =
     (let indent = (if ENV rt = ''development'' then 2 else 0);
          json = (case deref h obj of
                    VError name message stack own hidden \<Rightarrow>
                      json_stringify rt h
                        (VObject (assign_all
                           [(''message'', VStr message),
                            (''stack'',
                               if ENV rt = ''development''
                               then (case stack of None \<Rightarrow> VUndefined | Some t \<Rightarrow> VStr t)
                               else VUndefined)]
                           (spread h obj)))
                        indent
                  | _ \<Rightarrow> json_stringify rt h obj indent)
      in case json of
           Some text \<Rightarrow> text
         | None \<Rightarrow> ''[Circular or Non-Serializable Object]'')"

definition formatArgs :: "runtime \<Rightarrow> heap \<Rightarrow> jsval list \<Rightarrow> jsval list" where
  "formatArgs rt h args =
     map (\<lambda>arg.
       if deref h arg = VNull \<or> deref h arg = VUndefined then arg
       else if typeof h arg = ''object'' then VStr (formatObject rt h arg)
       else arg) args"

record Logger =
  lg_module :: string
  structuredLogger :: "StructuredLogger option"

definition new_Logger :: "runtime \<Rightarrow> string \<Rightarrow> Logger" where
  "new_Logger rt module =
     \<lparr>lg_module = module,
      structuredLogger =
        (if isServerSide rt \<and> useStructured (config rt)
         then Some (createStructuredLogger rt module None)
         else None)\<rparr>"

definition createLogger :: "runtime \<Rightarrow> string \<Rightarrow> Logger" where
  "createLogger rt module = new_Logger rt module"

definition shouldLogInEnvironment :: "runtime \<Rightarrow> bool" where
  "shouldLogInEnvironment rt =
     (if ENV rt = ''production'' then isServerSide rt else enabled (config rt))"

text \<open>\<open>levels.indexOf\<close>: \<open>-1\<close> for a value that is not in the array.\<close>

fun levels_indexOf :: "LogLevel option \<Rightarrow> int" where
  "levels_indexOf (Some DEBUG) = 0"
| "levels_indexOf (Some INFO) = 1"
| "levels_indexOf (Some WARN) = 2"
| "levels_indexOf (Some ERROR) = 3"
| "levels_indexOf None = - 1"

definition shouldLog :: "runtime \<Rightarrow> LogLevel \<Rightarrow> bool" where
  "shouldLog rt level =
     (if \<not> shouldLogInEnvironment rt then False
      else
        let minLevelIndex = levels_indexOf (minLevel (config rt));
            currentLevelIndex = levels_indexOf (Some level)
        in currentLevelIndex \<ge> minLevelIndex)"

fun levelColor :: "LogLevel \<Rightarrow> color" where
  "levelColor DEBUG = Blue"
| "levelColor INFO = Green"
| "levelColor WARN = Yellow"
| "levelColor ERROR = Red"

text \<open>\<open>Logger.log\<close>: the console lines that one call writes.\<close>

definition log :: "runtime \<Rightarrow> heap \<Rightarrow> Logger \<Rightarrow> LogLevel \<Rightarrow> string \<Rightarrow> jsval list \<Rightarrow> emitted list" where
  "log rt h this level message args =
     (if \<not> shouldLog rt level then []
      else
        let timestamp = now rt;
            formattedArgs = formatArgs rt h args;
            prefix =
              (if colorize (config rt)
               then chalk rt Gray (''['' @ timestamp @ '']'') @ '' '' @
                    chalk rt (levelColor level) (''['' @ LogLevel_string level @ '']'') @ '' '' @
                    chalk rt Cyan (''['' @ lg_module this @ '']'')
               else ''['' @ timestamp @ ''] ['' @ LogLevel_string level @ ''] ['' @
                    lg_module this @ '']'')
        in [ConsoleLine (if level = ERROR then Stderr else Stdout)
              (VStr prefix # VStr message # formattedArgs)])"

text \<open>
  The four public methods: with a structured logger attached the call goes to it, with
  the empty object as call context; otherwise it goes to \<open>log\<close>. A call returns the
  logger after the call and what it has written, or what it has thrown.
\<close>

definition facade_call ::
  "LogLevel \<Rightarrow> runtime \<Rightarrow> heap \<Rightarrow> Logger \<Rightarrow> string \<Rightarrow> jsval list \<Rightarrow> Logger \<times> (exn + emitted list)" where
  "facade_call level rt h this message args =
     (case structuredLogger this of
        Some sl \<Rightarrow>
          (case (case level of
                   DEBUG \<Rightarrow> sl_debug rt h sl message (Some []) args
                 | INFO \<Rightarrow> sl_info rt h sl message (Some []) args
                 | WARN \<Rightarrow> sl_warn rt h sl message (Some []) args
                 | ERROR \<Rightarrow> sl_error rt h sl message (Some []) args) of
             (sl', result) \<Rightarrow> (this\<lparr>structuredLogger := Some sl'\<rparr>, result))
      | None \<Rightarrow> (this, Inr (log rt h this level message args)))"

definition debug where "debug = facade_call DEBUG"
definition info where "info = facade_call INFO"
definition warn where "warn = facade_call WARN"
definition error where "error = facade_call ERROR"

text \<open>
  A sequence of calls on one logger, each with its level, message and arguments: the
  logger after the last call, and the result of every call in order. A call that throws
  leaves the logger to the calls after it.
\<close>

fun run_calls ::
  "runtime \<Rightarrow> heap \<Rightarrow> Logger \<Rightarrow> (LogLevel \<times> string \<times> jsval list) list
     \<Rightarrow> Logger \<times> (exn + emitted list) list" where
  "run_calls rt h this [] = (this, [])"
| "run_calls rt h this ((level, message, args) # calls) =
     (case facade_call level rt h this message args of
        (this', result) \<Rightarrow>
          (case run_calls rt h this' calls of
             (this'', results) \<Rightarrow> (this'', result # results)))"

section \<open>Values that a second pass leaves alone\<close>

text \<open>A string on which the second pass of the redactor changes nothing.\<close>

definition string_stable :: "string \<Rightarrow> bool" where
  "string_stable s = (sanitizeString (sanitizeString s) = sanitizeString s)"

lemma string_stable_code [code]:
  "string_stable [] = (sanitizeString (sanitizeString []) = sanitizeString [])"
  "string_stable (c # cs) = (sanitizeString (sanitizeString (c # cs)) = sanitizeString (c # cs))"
  by (simp_all add: string_stable_def)








section \<open>Bearer tokens\<close>






section \<open>Example inputs\<close>

text \<open>
  A development runtime, a production runtime and a test runtime, all on the server, and
  a development runtime in the browser; \<open>chalk\<close> leaves the text as it is and
  \<open>JSON.stringify\<close> is not needed by the examples.
\<close>

definition dev_runtime :: runtime where
  "dev_runtime =
     \<lparr>NODE_ENV = Some ''development'', isServerSide = True, now = ''2026-01-01T00:00:00.000Z'',
      chalk = (\<lambda>c text. text), json_stringify = (\<lambda>h v indent. None)\<rparr>"

definition prod_runtime :: runtime where
  "prod_runtime = dev_runtime\<lparr>NODE_ENV := Some ''production''\<rparr>"

definition test_runtime :: runtime where
  "test_runtime = dev_runtime\<lparr>NODE_ENV := Some ''test''\<rparr>"

definition browser_runtime :: runtime where
  "browser_runtime = dev_runtime\<lparr>isServerSide := False\<rparr>"

text \<open>The store of \<open>const o = {}; o.self = o\<close>, with \<open>o\<close> at address 0.\<close>

definition cyclic_heap :: heap where
  "cyclic_heap = [0 \<mapsto> VObject [(''self'', VRef 0)]]"


text \<open>
  What \<open>String\<close> throws on \<open>Object.create(null)\<close>, and a date whose \<open>toISOString\<close> has
  been replaced by a function that throws \<open>Object.create(null)\<close>.
\<close>

definition no_conversion :: exn where
  "no_conversion = ThrownError ''TypeError'' ''Cannot convert object to primitive value''"

definition hostile_date :: jsval where
  "hostile_date = VDate (Inl (ThrownOther (Inl no_conversion)))"

text \<open>
  \<open>const m = new Map([['token', 'Bearer abc123']]); m.p = 'Bearer abc123';
  m.f = () => 1\<close>
\<close>

definition tagged_map :: jsval where
  "tagged_map =
     VInstance ''Map'' [VArray [VStr ''token'', VStr ''Bearer abc123'']]
       [(''p'', VStr ''Bearer abc123''), (''f'', VFunction)]"



text \<open>An \<open>Error\<close> on the ninth level of nested arrays.\<close>

definition deep_error :: jsval where
  "deep_error =
     VArray [VArray [VArray [VArray [VArray [VArray [VArray [VArray [VArray [
       VError ''Error'' ''m'' None [] []]]]]]]]]]"


section \<open>When the sanitizer raises\<close>

text \<open>
  C4. \<open>const d = new Date(); d.toISOString = () => { throw Object.create(null) }\<close>:
  the walk throws the object, the \<open>catch\<close> block of \<open>sanitizeLogData\<close> calls
  \<open>String\<close> on it, and the \<open>TypeError\<close> of that call leaves \<open>sanitizeLogData\<close>. On
  an invalid date, whose \<open>toISOString\<close> throws an \<open>Error\<close>, the same \<open>catch\<close> block
  returns the diagnostic record.
\<close>

theorem sanitizeLogData_raises:
  "sanitizeObject None Map.empty hostile_date 10 = Inl (ThrownOther (Inl no_conversion)) \<and>
   sanitizeLogData None Map.empty hostile_date = Inl no_conversion \<and>
   sanitizeLogData None Map.empty invalid_date =
     Inr (VObject [(''_sanitization_error'', VBool True),
                   (''_original_type'', VStr ''object''),
                   (''_error'', VStr ''Invalid time value'')])"
  by code_simp

section \<open>Containers that are not plain objects\<close>

lemma define_prop_fresh: "key \<notin> fst ` set obj \<Longrightarrow> define_prop obj key v = obj @ [(key, v)]"
  by (simp add: define_prop_def)

lemma entries_loop_distinct:
  assumes "distinct (map fst ps)" and "fst ` set acc \<inter> fst ` set ps = {}"
  shows "foldl (\<lambda>sanitized kv. if c kv then sanitized else set_prop sanitized (fst kv) (f kv)) acc ps
           = acc @ map (\<lambda>kv. (fst kv, f kv)) (filter (\<lambda>kv. \<not> c kv \<and> fst kv \<noteq> proto_key) ps)"
  using assms
proof (induction ps arbitrary: acc)
  case Nil
  show ?case by simp
next
  case (Cons kv ps)
  have d: "distinct (map fst ps)" using Cons.prems(1) by simp
  have fresh: "fst kv \<notin> fst ` set acc" using Cons.prems(2) by auto
  have same: "fst ` set acc \<inter> fst ` set ps = {}" using Cons.prems(2) by auto
  show ?case
  proof (cases "\<not> c kv \<and> fst kv \<noteq> proto_key")
    case True
    have "fst ` set (acc @ [(fst kv, f kv)]) \<inter> fst ` set ps = {}"
      using Cons.prems(1,2) by auto
    with d have "foldl (\<lambda>sanitized kv. if c kv then sanitized else set_prop sanitized (fst kv) (f kv))
          (acc @ [(fst kv, f kv)]) ps =
        (acc @ [(fst kv, f kv)]) @
          map (\<lambda>kv. (fst kv, f kv)) (filter (\<lambda>kv. \<not> c kv \<and> fst kv \<noteq> proto_key) ps)"
      by (rule Cons.IH)
    with True fresh show ?thesis by (simp add: set_prop_def define_prop_fresh)
  next
    case False
    from d same have "foldl (\<lambda>sanitized kv. if c kv then sanitized else set_prop sanitized (fst kv) (f kv))
          acc ps =
        acc @ map (\<lambda>kv. (fst kv, f kv)) (filter (\<lambda>kv. \<not> c kv \<and> fst kv \<noteq> proto_key) ps)"
      by (rule Cons.IH)
    with False show ?thesis by (auto simp: set_prop_def)
  qed
qed

text \<open>
  C10. An object that is neither plain nor an \<open>Error\<close>, a \<open>Date\<close> or an array is
  sanitized as a fresh plain object made from its own enumerable properties alone: one
  property for each of them whose value is not a function (and whose key is not
  \<open>__proto__\<close>), in their order, its value sanitized with nine levels left, or the
  circular-reference sentinel when that throws. The contents of the container are not
  looked at; with no own enumerable properties, as for a \<open>Map\<close> or a \<open>Set\<close> as the
  constructor makes it, the result is the empty object.
\<close>

theorem non_plain_container_entries:
  assumes "deref h v = VInstance cls contents entries" and "distinct (map fst entries)"
  shows "sanitizeLogData node_env h v =
           Inr (VObject
             (map (\<lambda>kv. (fst kv,
                     case sanitizeObject node_env h (snd kv) 9 of
                       Inl e \<Rightarrow> VStr CIRCULAR_REFERENCE
                     | Inr w \<Rightarrow> w))
                (filter (\<lambda>kv. \<not> is_function h (snd kv) \<and> fst kv \<noteq> proto_key) entries))) \<and>
         sanitizeLogData node_env h (VInstance cls contents []) = Inr (VObject [])"
proof -
  have "foldl (\<lambda>sanitized kv.
            if is_function h (snd kv) then sanitized
            else set_prop sanitized (fst kv)
                   (case sanitizeObject node_env h (snd kv) 9 of
                      Inl e \<Rightarrow> VStr CIRCULAR_REFERENCE
                    | Inr w \<Rightarrow> w)) [] entries =
        [] @ map (\<lambda>kv. (fst kv,
                     case sanitizeObject node_env h (snd kv) 9 of
                       Inl e \<Rightarrow> VStr CIRCULAR_REFERENCE
                     | Inr w \<Rightarrow> w))
                (filter (\<lambda>kv. \<not> is_function h (snd kv) \<and> fst kv \<noteq> proto_key) entries)"
    using assms(2) by (rule entries_loop_distinct) simp
  then have "sanitizeObject node_env h v 10 =
           Inr (VObject
             (map (\<lambda>kv. (fst kv,
                     case sanitizeObject node_env h (snd kv) 9 of
                       Inl e \<Rightarrow> VStr CIRCULAR_REFERENCE
                     | Inr w \<Rightarrow> w))
                (filter (\<lambda>kv. \<not> is_function h (snd kv) \<and> fst kv \<noteq> proto_key) entries)))"
    using assms(1) by (simp add: sanitizeObject.simps [of _ _ v 10] cong: if_cong)
  moreover have "sanitizeObject node_env h (VInstance cls contents []) 10 = Inr (VObject [])"
    by (simp add: sanitizeObject.simps [of _ _ _ 10] deref_def)
  ultimately show ?thesis by (simp add: sanitizeLogData_def try_catch_def)
qed

lemma tagged_map_entries:
  "map (\<lambda>kv. (fst kv,
          case sanitizeObject None Map.empty (snd kv) 9 of
            Inl e \<Rightarrow> VStr CIRCULAR_REFERENCE
          | Inr w \<Rightarrow> w))
     (filter (\<lambda>kv. \<not> is_function Map.empty (snd kv) \<and> fst kv \<noteq> proto_key)
        [(''p'', VStr ''Bearer abc123''), (''f'', VFunction)]) =
   [(''p'', VStr ''Bearer [REDACTED]'')]"
  by code_simp

theorem non_plain_container_entries_witness:
  "deref Map.empty tagged_map =
     VInstance ''Map'' [VArray [VStr ''token'', VStr ''Bearer abc123'']]
       [(''p'', VStr ''Bearer abc123''), (''f'', VFunction)] \<and>
   distinct (map fst [(''p'', VStr ''Bearer abc123''), (''f'', VFunction)]) \<and>
   sanitizeLogData None Map.empty tagged_map = Inr (VObject [(''p'', VStr ''Bearer [REDACTED]'')])"
proof -
  have 1: "deref Map.empty tagged_map =
     VInstance ''Map'' [VArray [VStr ''token'', VStr ''Bearer abc123'']]
       [(''p'', VStr ''Bearer abc123''), (''f'', VFunction)]"
    by (simp add: deref_def tagged_map_def)
  have 2: "distinct (map fst [(''p'', VStr ''Bearer abc123''), (''f'', VFunction)])"
    by simp
  from non_plain_container_entries [OF 1 2, of None] 1 2 show ?thesis
    by (simp only: tagged_map_entries simp_thms)
qed

section \<open>Cyclic objects\<close>

text \<open>
  C2. On \<open>const o = {}; o.self = o\<close> the walk follows the cycle until the depth
  budget is used up: \<open>sanitizeLogData(o)\<close> returns ten nested objects and the
  depth sentinel, and no circular-reference sentinel.
\<close>

theorem cyclic_object_unrolled:
  "sanitizeLogData None cyclic_heap (VRef 0) =
     Inr (VObject [(''self'', VObject [(''self'', VObject [(''self'', VObject [(''self'',
          VObject [(''self'', VObject [(''self'', VObject [(''self'', VObject [(''self'',
          VObject [(''self'', VObject [(''self'', VStr ''[MAX_DEPTH_REACHED]'')])])])])])])])])])])"
  by code_simp

section \<open>The queries keep state\<close>

text \<open>
  C5. Two successive calls of \<open>containsSensitiveData\<close> on the same string, starting
  from the state of a freshly loaded module: the first returns true and leaves the
  \<open>lastIndex\<close> of the Bearer pattern at 13, the second returns false.
\<close>

theorem containsSensitiveData_second_call_differs:
  "containsSensitiveData ''Bearer abc123'' initial_pattern_state = (True, [13, 0, 0, 0, 0, 0]) \<and>
   containsSensitiveData ''Bearer abc123'' [13, 0, 0, 0, 0, 0] = (False, [0, 0, 0, 0, 0, 0])"
  by code_simp

section \<open>The loggers\<close>

lemma log_at_frame: "fst (log_at lvl rt h this message (Some c) args) = this"
  by (simp add: log_at_def formatLogData_def Let_def split: sum.splits)

lemma log_at_result:
  "snd (log_at lvl rt h this message ctx args) =
     (case formatLogData rt h this message ctx args of
        Inl e \<Rightarrow> Inl e
      | Inr x \<Rightarrow> Inr (pino_write (pino this) lvl (fst x)))"
  by (cases ctx) (auto simp: log_at_def formatLogData_def Let_def split: sum.splits)

lemma facade_call_frame: "fst (facade_call level rt h this message args) = this"
proof (cases "structuredLogger this")
  case None
  then show ?thesis by (simp add: facade_call_def)
next
  case (Some sl)
  obtain lvl where lvl: "(case level of
                   DEBUG \<Rightarrow> sl_debug rt h sl message (Some []) args
                 | INFO \<Rightarrow> sl_info rt h sl message (Some []) args
                 | WARN \<Rightarrow> sl_warn rt h sl message (Some []) args
                 | ERROR \<Rightarrow> sl_error rt h sl message (Some []) args) = log_at lvl rt h sl message (Some []) args"
    by (cases level) (simp_all add: sl_debug_def sl_info_def sl_warn_def sl_error_def)
  obtain sl' result where r: "log_at lvl rt h sl message (Some []) args = (sl', result)"
    by (cases "log_at lvl rt h sl message (Some []) args") auto
  with log_at_frame [of lvl rt h sl message "[]" args] have "sl' = sl" by simp
  with Some lvl r show ?thesis by (simp add: facade_call_def)
qed

lemma run_calls_frame: "fst (run_calls rt h this calls) = this"
proof (induction calls)
  case Nil
  show ?case by simp
next
  case (Cons call calls)
  obtain level message args where call: "call = (level, message, args)"
    by (cases call) auto
  obtain this1 r1 where 1: "facade_call level rt h this message args = (this1, r1)"
    by (cases "facade_call level rt h this message args") auto
  with facade_call_frame [of level rt h this message args] have "this1 = this" by simp
  with Cons call 1 show ?case by (auto split: prod.splits)
qed

lemma useStructured_production: "useStructured (config rt) = (ENV rt = ''production'')"
  by (simp add: config_def LOG_CONFIG_def config_development_def config_production_def
        config_test_def config_inherited_def)

text \<open>
  C7. A new \<open>Logger\<close> has a structured logger attached exactly when the code runs on
  the server and the configuration of the environment has \<open>useStructured\<close>, which is so
  exactly in production; and whatever calls are made on the logger, whether they return
  or throw, the logger after them is the logger as constructed, with the same backend.
\<close>

theorem backend_chosen_at_construction:
  "(structuredLogger (new_Logger rt module) \<noteq> None) = (isServerSide rt \<and> useStructured (config rt)) \<and>
   useStructured (config rt) = (ENV rt = ''production'') \<and>
   fst (run_calls rt h (new_Logger rt module) calls) = new_Logger rt module \<and>
   structuredLogger (fst (run_calls rt h (new_Logger rt module) calls)) =
     structuredLogger (new_Logger rt module)"
  using run_calls_frame [of rt h "new_Logger rt module" calls] useStructured_production [of rt]
  by (simp add: new_Logger_def)

lemma console_silent:
  assumes "\<not> shouldLogInEnvironment rt" and "structuredLogger this = None"
  shows "run_calls rt h this calls = (this, map (\<lambda>call. Inr []) calls)"
proof (induction calls)
  case Nil
  show ?case by simp
next
  case (Cons call calls)
  obtain level message args where call: "call = (level, message, args)"
    by (cases call) auto
  have "facade_call level rt h this message args = (this, Inr [])"
    using assms by (simp add: facade_call_def log_def shouldLog_def)
  with Cons call show ?case by simp
qed

lemma test_config:
  assumes "NODE_ENV rt = Some ''test''"
  shows "ENV rt = ''test''" and "config rt = config_test"
  using assms by (simp_all add: ENV_def config_def LOG_CONFIG_def)

text \<open>
  C8. With \<open>NODE_ENV = test\<close> a logger made by \<open>createLogger\<close> has no structured
  logger, and in any sequence of \<open>debug\<close>, \<open>info\<close>, \<open>warn\<close> and \<open>error\<close> calls on it,
  with any messages and arguments, every call returns and writes nothing. A structured
  logger made in that environment writes nothing at any level either: a call on it
  returns with nothing written, or throws what \<open>formatLogData\<close> throws.
\<close>

theorem test_environment_silent:
  assumes "NODE_ENV rt = Some ''test''"
  shows "run_calls rt h (createLogger rt module) calls =
           (createLogger rt module, map (\<lambda>call. Inr []) calls) \<and>
         structuredLogger (createLogger rt module) = None \<and>
         snd (log_at lvl rt h (createStructuredLogger rt module ctx) message c args) =
           (case formatLogData rt h (createStructuredLogger rt module ctx) message c args of
              Inl e \<Rightarrow> Inl e
            | Inr x \<Rightarrow> Inr [])"
proof -
  have none: "structuredLogger (createLogger rt module) = None"
    using test_config [OF assms]
    by (simp add: createLogger_def new_Logger_def config_test_def)
  have "\<not> shouldLogInEnvironment rt"
    using test_config [OF assms] by (simp add: shouldLogInEnvironment_def config_test_def)
  then have run: "run_calls rt h (createLogger rt module) calls =
      (createLogger rt module, map (\<lambda>call. Inr []) calls)"
    using none by (rule console_silent)
  have "threshold (pino (createStructuredLogger rt module ctx)) = Silent"
    using assms
    by (simp add: createStructuredLogger_def new_StructuredLogger_def getLoggerConfig_level_def)
  then have "pino_write (pino (createStructuredLogger rt module ctx)) lvl logData = []" for logData
    by (simp add: pino_write_def)
  then have "snd (log_at lvl rt h (createStructuredLogger rt module ctx) message c args) =
           (case formatLogData rt h (createStructuredLogger rt module ctx) message c args of
              Inl e \<Rightarrow> Inl e
            | Inr x \<Rightarrow> Inr [])"
    by (simp add: log_at_result split: sum.splits)
  with none run show ?thesis by simp
qed

lemma test_format_example:
  "formatLogData test_runtime Map.empty (createStructuredLogger test_runtime ''auth'' None)
     ''down'' None [] =
   Inr ([(''msg'', VStr ''down''), (''module'', VStr ''auth'')],
        createStructuredLogger test_runtime ''auth'' None)"
  by code_simp

theorem test_environment_silent_witness:
  "NODE_ENV test_runtime = Some ''test'' \<and>
   run_calls test_runtime Map.empty (createLogger test_runtime ''auth'')
     [(ERROR, ''login failed'', [VStr ''Bearer abc123'']), (DEBUG, ''x'', [])] =
     (createLogger test_runtime ''auth'', [Inr [], Inr []]) \<and>
   structuredLogger (createLogger test_runtime ''auth'') = None \<and>
   snd (log_at Fatal test_runtime Map.empty (createStructuredLogger test_runtime ''auth'' None)
          ''down'' None []) = Inr []"
proof -
  have h: "NODE_ENV test_runtime = Some ''test''"
    by (simp add: test_runtime_def dev_runtime_def)
  show ?thesis
    using h test_environment_silent [OF h, of Map.empty "''auth''"
        "[(ERROR, ''login failed'', [VStr ''Bearer abc123'']), (DEBUG, ''x'', [])]" Fatal None "''down''" None "[]"]
    by (simp add: test_format_example)
qed

text \<open>
  C1. In development \<open>createLogger('auth').info('login', 'Bearer abc123')\<close> goes to the
  console backend, which hands the argument to \<open>console.log\<close> as it is, on the server
  and in the browser, although \<open>sanitizeLogArgs\<close> would redact it; in production on the
  server the same call goes to the structured backend, which writes the redacted
  argument.
\<close>

theorem console_backend_not_sanitized:
  "info dev_runtime Map.empty (createLogger dev_runtime ''auth'') ''login'' [VStr ''Bearer abc123''] =
     (createLogger dev_runtime ''auth'',
      Inr [ConsoleLine Stdout
             [VStr ''[2026-01-01T00:00:00.000Z] [INFO] [auth]'', VStr ''login'', VStr ''Bearer abc123'']]) \<and>
   info browser_runtime Map.empty (createLogger browser_runtime ''auth'') ''login'' [VStr ''Bearer abc123''] =
     (createLogger browser_runtime ''auth'',
      Inr [ConsoleLine Stdout
             [VStr ''[2026-01-01T00:00:00.000Z] [INFO] [auth]'', VStr ''login'', VStr ''Bearer abc123'']]) \<and>
   sanitizeLogArgs (NODE_ENV dev_runtime) Map.empty [VStr ''Bearer abc123''] = Inr [VStr ''Bearer [REDACTED]''] \<and>
   info prod_runtime Map.empty (createLogger prod_runtime ''auth'') ''login'' [VStr ''Bearer abc123''] =
     (createLogger prod_runtime ''auth'',
      Inr [PinoRecord Info []
             [(''msg'', VStr ''login''), (''module'', VStr ''auth''),
              (''additionalData'', VArray [VStr ''Bearer [REDACTED]''])]])"
  by code_simp

text \<open>
  C6. A structured logger for module \<open>m\<close> starts with the default context
  \<open>{module: 'm'}\<close>. After \<open>info('msg', undefined, 'x')\<close> its default context also
  holds \<open>additionalData: ['x']\<close>: without a call context \<open>formatLogData\<close> assigns the
  extra arguments into \<open>this.defaultContext\<close> itself.
\<close>

theorem default_context_mutated_in_place:
  "defaultContext (createStructuredLogger prod_runtime ''m'' None) = [(''module'', VStr ''m'')] \<and>
   sl_info prod_runtime Map.empty (createStructuredLogger prod_runtime ''m'' None) ''msg'' None [VStr ''x''] =
     (\<lparr>pino = \<lparr>threshold = Info, bindings = []\<rparr>, sl_module = ''m'',
       defaultContext = [(''module'', VStr ''m''), (''additionalData'', VArray [VStr ''x''])]\<rparr>,
      Inr [PinoRecord Info []
             [(''msg'', VStr ''msg''), (''module'', VStr ''m''),
              (''additionalData'', VArray [VStr ''x''])]])"
  by code_simp

section \<open>Idempotence\<close>



















































text \<open>
  The two conditions on an \<open>Error\<close> cannot be dropped. The first pass copies the
  \<open>name\<close> as it is, and the second pass, which finds a plain object, redacts it. And an
  \<open>Error\<close> with a budget of one, as on the ninth level of nested arrays, comes out of
  the first pass with its own name, which the second pass, with no budget left for the
  properties of that object, replaces by the depth sentinel.
\<close>

lemma second_pass_changes_error_name:
  "sanitizeLogData None Map.empty (VError ''Bearer abc123'' ''m'' None [] []) =
     Inr (VObject [(''name'', VStr ''Bearer abc123''), (''message'', VStr ''m''),
                   (''stack'', VUndefined)]) \<and>
   sanitizeLogData None Map.empty
     (VObject [(''name'', VStr ''Bearer abc123''), (''message'', VStr ''m''),
               (''stack'', VUndefined)]) =
     Inr (VObject [(''name'', VStr ''Bearer [REDACTED]''), (''message'', VStr ''m''),
                   (''stack'', VUndefined)])"
  by code_simp

lemma second_pass_changes_deep_error:
  "(case sanitizeLogData None Map.empty deep_error of
      Inl e \<Rightarrow> False
    | Inr w \<Rightarrow> sanitizeLogData None Map.empty w \<noteq> Inr w)"
  by code_simp

section \<open>The Bearer rule\<close>












































































end
